theory Spec2Isabelle
  imports Main "HOL-Library.Sublist"
begin

section \<open>Strings\<close>

text \<open>
  JavaScript strings are modelled as \<^typ>\<open>string\<close> over the ASCII range: \<open>length\<close> is
  \<open>.length\<close>, \<open>toLowerCase\<close> maps \<open>A\<close>..\<open>Z\<close> to \<open>a\<close>..\<open>z\<close> and leaves every other
  character alone, \<open>trim\<close> strips the ASCII white space from both ends. The special casings
  of Unicode (a lower-cased string longer than the original) are outside this model, so
  every statement about the servers that depends on the length of a query speaks of the
  lower-cased query, which is the string the servers measure.
\<close>

definition toLowerChar :: "char \<Rightarrow> char" where
  "toLowerChar c =
     (case map_of (zip ''ABCDEFGHIJKLMNOPQRSTUVWXYZ'' ''abcdefghijklmnopqrstuvwxyz'') c of
        Some l \<Rightarrow> l
      | None \<Rightarrow> c)"

definition toLowerCase :: "string \<Rightarrow> string" where
  "toLowerCase s = map toLowerChar s"

definition isWhiteSpace :: "char \<Rightarrow> bool" where
  "isWhiteSpace c = ((of_char c :: nat) \<in> {9, 10, 11, 12, 13, 32})"

definition trim :: "string \<Rightarrow> string" where
  "trim s = rev (dropWhile isWhiteSpace (rev (dropWhile isWhiteSpace s)))"

text \<open>\<open>s.startsWith(q)\<close>, by comparing character by character.\<close>

fun startsWith :: "string \<Rightarrow> string \<Rightarrow> bool" where
  "startsWith s [] = True"
| "startsWith [] (q # qs) = False"
| "startsWith (c # cs) (q # qs) = (c = q \<and> startsWith cs qs)"

text \<open>\<open>s.includes(q)\<close> (the name alone is taken in Isar): \<open>q\<close> starts at some position of \<open>s\<close>.\<close>

fun includes_str :: "string \<Rightarrow> string \<Rightarrow> bool" where
  "includes_str [] q = (q = [])"
| "includes_str (c # cs) q = (startsWith (c # cs) q \<or> includes_str cs q)"

text \<open>\<open>file.endsWith(ext)\<close>.\<close>

definition endsWith :: "string \<Rightarrow> string \<Rightarrow> bool" where
  "endsWith s ext = startsWith (rev s) (rev ext)"

section \<open>Data model (types.ts)\<close>

record Category =
  category_id :: string
  name :: string
  description :: string
  iconName :: string
  promptCount :: int
  gradient :: string

record Prompt =
  prompt_id :: string
  categoryId :: string
  title :: string
  shortDescription :: string
  fullDescription :: "string option"
  content :: "string option"
  tags :: "string list"

section \<open>The file store behind the servers\<close>

text \<open>
  A JSON file of the \<open>data\<close> directory, as \<open>readFile\<close> followed by \<open>JSON.parse\<close> sees it:
  absent, present but not parseable into the expected shape, or present with its parsed value.
\<close>

datatype 'a File = Missing | Malformed | Content 'a

text \<open>The files a handler asks the file system for, in the order it asks.\<close>

datatype Path =
  CategoriesJson | CategoryJson string | PromptJson string | PromptsDir | PromptFile string

text \<open>\<open>res.json(v)\<close> is \<open>Json v\<close>; \<open>res.status(n).json({error: ...})\<close> is \<open>Failed n\<close>.\<close>

datatype 'a Response = Json 'a | Failed nat

section \<open>The ESM server (server.js)\<close>

record EsmData =
  categoriesJson :: "Category list File"
  categoryJson :: "string \<Rightarrow> Prompt list File"
  promptJson :: "string \<Rightarrow> Prompt File"

text \<open>\<open>GET /api/categories/:id\<close>: any failure of the read or the parse is a 404.\<close>

definition esm_getCategory :: "EsmData \<Rightarrow> string \<Rightarrow> Prompt list Response \<times> Path list" where
  "esm_getCategory d i =
     (case categoryJson d i of
        Content v \<Rightarrow> (Json v, [CategoryJson i])
      | _ \<Rightarrow> (Failed 404, [CategoryJson i]))"

text \<open>
  The loop of \<open>GET /api/search\<close> over the categories: each category file is read inside its
  own \<open>try\<close>; a failure is logged and the loop goes on.
\<close>

fun collectPrompts ::
  "EsmData \<Rightarrow> Category list \<Rightarrow> Prompt list \<times> Path list \<Rightarrow> Prompt list \<times> Path list" where
  "collectPrompts d [] acc = acc"
| "collectPrompts d (c # cs) (allPrompts, reads) =
     collectPrompts d cs
       (case categoryJson d (category_id c) of
          Content ps \<Rightarrow> (allPrompts @ ps, reads @ [CategoryJson (category_id c)])
        | _ \<Rightarrow> (allPrompts, reads @ [CategoryJson (category_id c)]))"

text \<open>The filter predicate of the ESM search: title, short description, some tag.\<close>

definition esm_matches :: "string \<Rightarrow> Prompt \<Rightarrow> bool" where
  "esm_matches query p =
     (let titleMatch = includes_str (toLowerCase (title p)) query;
          descMatch = includes_str (toLowerCase (shortDescription p)) query;
          tagMatch = list_ex (\<lambda>tag. includes_str (toLowerCase tag) query) (tags p)
      in titleMatch \<or> descMatch \<or> tagMatch)"

text \<open>
  \<open>GET /api/search\<close>. The parameter is \<open>None\<close> when the request has no \<open>q\<close>. The result is
  the response and the files read to serve it.
\<close>

definition esm_search :: "EsmData \<Rightarrow> string option \<Rightarrow> Prompt list Response \<times> Path list" where
  "esm_search d q =
     (case map_option toLowerCase q of
        None \<Rightarrow> (Json [], [])
      | Some query \<Rightarrow>
          if query = [] \<or> length query < 2 then (Json [], [])
          else (case categoriesJson d of
                  Content categories \<Rightarrow>
                    (let (allPrompts, reads) = collectPrompts d categories ([], [CategoriesJson])
                     in (Json (filter (esm_matches query) allPrompts), reads))
                | _ \<Rightarrow> (Failed 500, [CategoriesJson])))"

section \<open>Plain objects used as tables\<close>

text \<open>
  Both portal programs keep tables in plain objects (\<open>{}\<close>) and read them with
  \<open>table[key]\<close>. Such a read finds the object's own properties, then the members every
  object inherits from \<open>Object.prototype\<close>, which are functions (for \<open>__proto__\<close> the
  prototype itself) and so neither \<open>undefined\<close> nor falsy. The own properties are a map;
  \<open>getMember\<close> is the read.
\<close>

definition objectPrototypeKeys :: "string list" where
  "objectPrototypeKeys =
     [''constructor'', ''__defineGetter__'', ''__defineSetter__'', ''hasOwnProperty'',
      ''__lookupGetter__'', ''__lookupSetter__'', ''isPrototypeOf'', ''propertyIsEnumerable'',
      ''toString'', ''valueOf'', ''__proto__'', ''toLocaleString'']"

datatype 'a Member = Own 'a | Inherited | Undefined

definition getMember :: "(string \<rightharpoonup> 'a) \<Rightarrow> string \<Rightarrow> 'a Member" where
  "getMember obj k =
     (case obj k of
        Some v \<Rightarrow> Own v
      | None \<Rightarrow> if k \<in> set objectPrototypeKeys then Inherited else Undefined)"

section \<open>The portal server (portal/server.js)\<close>

text \<open>
  The portal keeps its own shapes: a category file lists summaries, a prompt file holds
  the prompt with its body, and a search result names the category.
\<close>

record PortalCategory =
  pc_id :: string
  pc_name :: string
  pc_image :: string
  pc_promptCount :: int

record PortalSummary =
  ps_id :: string
  ps_title :: string
  ps_description :: string

record PortalPrompt =
  pp_id :: string
  pp_categoryId :: string
  pp_title :: string
  pp_description :: string
  pp_prompt :: string

text \<open>
  \<open>categoriesMap[id] || '...'\<close>: the category's name; the fixed placeholder text when the
  identifier is not in the map or its name is the empty string; a member inherited from
  \<open>Object.prototype\<close> when the identifier is the name of one and no category has it.
\<close>

datatype CategoryName = Named string | UnknownCategory | InheritedMember

record SearchResult =
  sr_id :: string
  sr_categoryId :: string
  sr_categoryName :: CategoryName
  sr_title :: string
  sr_description :: string

text \<open>
  \<open>promptsDir\<close> is the listing of \<open>data/prompts\<close> in the order \<open>readdirSync\<close> returns it,
  each name with the file behind it.
\<close>

record PortalData =
  p_categoriesJson :: "PortalCategory list File"
  p_categoryJson :: "string \<Rightarrow> PortalSummary list File"
  promptsDir :: "(string \<times> PortalPrompt File) list File"

text \<open>\<open>GET /api/categories/:categoryId\<close>: 404 when the file does not exist, 500 when reading
  or parsing it throws.\<close>

definition portal_getCategory ::
  "PortalData \<Rightarrow> string \<Rightarrow> PortalSummary list Response \<times> Path list" where
  "portal_getCategory d i =
     (case p_categoryJson d i of
        Missing \<Rightarrow> (Failed 404, [])
      | Malformed \<Rightarrow> (Failed 500, [CategoryJson i])
      | Content v \<Rightarrow> (Json v, [CategoryJson i]))"

text \<open>
  \<open>categoriesMap[cat.id] = cat.name\<close> for each category. An assignment of a string to
  \<open>__proto__\<close> is ignored by the setter of that name.
\<close>

definition buildCategoriesMap :: "PortalCategory list \<Rightarrow> (string \<rightharpoonup> string)" where
  "buildCategoriesMap cats =
     fold (\<lambda>cat m. if pc_id cat = ''__proto__'' then m else m(pc_id cat \<mapsto> pc_name cat))
       cats Map.empty"

definition lookupCategoryName :: "(string \<rightharpoonup> string) \<Rightarrow> string \<Rightarrow> CategoryName" where
  "lookupCategoryName m i =
     (case getMember m i of
        Own n \<Rightarrow> if n = [] then UnknownCategory else Named n
      | Inherited \<Rightarrow> InheritedMember
      | Undefined \<Rightarrow> UnknownCategory)"

text \<open>The test of the portal search: title, description, body of the prompt.\<close>

definition portal_matches :: "string \<Rightarrow> PortalPrompt \<Rightarrow> bool" where
  "portal_matches searchQuery promptData =
     (includes_str (toLowerCase (pp_title promptData)) searchQuery \<or>
      includes_str (toLowerCase (pp_description promptData)) searchQuery \<or>
      includes_str (toLowerCase (pp_prompt promptData)) searchQuery)"

definition toSearchResult :: "(string \<rightharpoonup> string) \<Rightarrow> PortalPrompt \<Rightarrow> SearchResult" where
  "toSearchResult m promptData =
     \<lparr> sr_id = pp_id promptData,
       sr_categoryId = pp_categoryId promptData,
       sr_categoryName = lookupCategoryName m (pp_categoryId promptData),
       sr_title = pp_title promptData,
       sr_description = pp_description promptData \<rparr>"

text \<open>
  \<open>promptFiles.forEach\<close>: files whose name does not end in \<open>.json\<close> are passed over; a file
  that cannot be read or parsed throws out of the loop (\<open>None\<close>), into the handler's \<open>catch\<close>.
\<close>

fun scanPromptFiles ::
  "string \<Rightarrow> (string \<rightharpoonup> string) \<Rightarrow> (string \<times> PortalPrompt File) list \<Rightarrow>
   SearchResult list \<times> Path list \<Rightarrow> SearchResult list option \<times> Path list" where
  "scanPromptFiles searchQuery m [] (results, reads) = (Some results, reads)"
| "scanPromptFiles searchQuery m ((file, f) # rest) (results, reads) =
     (if endsWith file ''.json'' then
        (case f of
           Content promptData \<Rightarrow>
             scanPromptFiles searchQuery m rest
               (if portal_matches searchQuery promptData
                then results @ [toSearchResult m promptData] else results,
                reads @ [PromptFile file])
         | _ \<Rightarrow> (None, reads @ [PromptFile file]))
      else scanPromptFiles searchQuery m rest (results, reads))"

text \<open>\<open>GET /api/search\<close> of the portal.\<close>

definition portal_search ::
  "PortalData \<Rightarrow> string option \<Rightarrow> SearchResult list Response \<times> Path list" where
  "portal_search d q0 =
     (case q0 of
        None \<Rightarrow> (Json [], [])
      | Some q \<Rightarrow>
          if q = [] \<or> trim q = [] then (Json [], [])
          else
            (let searchQuery = trim (toLowerCase q) in
             case p_categoriesJson d of
               Content cats \<Rightarrow>
                 (case promptsDir d of
                    Content promptFiles \<Rightarrow>
                      (case scanPromptFiles searchQuery (buildCategoriesMap cats) promptFiles
                              ([], [CategoriesJson, PromptsDir]) of
                         (Some results, reads) \<Rightarrow> (Json results, reads)
                       | (None, reads) \<Rightarrow> (Failed 500, reads))
                  | _ \<Rightarrow> (Failed 500, [CategoriesJson, PromptsDir]))
             | _ \<Rightarrow> (Failed 500, [CategoriesJson])))"

section \<open>The React application (App component)\<close>

text \<open>
  The component's state is the record of its \<open>useState\<close> cells, together with the
  promises of the data service that have not settled yet, in the order they were created.
  The data service module itself is a parameter: what each of its four functions settles
  to, \<open>Rejected\<close> when the promise rejects.
\<close>

datatype View = Home | CategoryView

datatype 'a Outcome = Rejected | Resolved 'a

record DataService =
  getCategories :: "Category list Outcome"
  getPromptsByCategoryId :: "string \<Rightarrow> Prompt list Outcome"
  searchPrompts :: "string \<Rightarrow> Prompt list Outcome"
  getPromptById :: "string \<Rightarrow> Prompt option Outcome"

datatype Request =
  GetCategories | GetPromptsByCategoryId string | SearchPrompts string | GetPromptById string

record AppState =
  view :: View
  activeCategoryId :: "string option"
  categories :: "Category list"
  prompts :: "Prompt list"
  searchQuery :: string
  loading :: bool
  loadingPrompts :: bool
  selectedPrompt :: "Prompt option"
  isModalOpen :: bool
  pending :: "Request list"

text \<open>The state after mounting: the first effect has asked for the categories.\<close>

definition initialState :: AppState where
  "initialState =
     \<lparr> view = Home, activeCategoryId = None, categories = [], prompts = [],
       searchQuery = [], loading = True, loadingPrompts = False,
       selectedPrompt = None, isModalOpen = False, pending = [GetCategories] \<rparr>"

text \<open>
  The second effect. In a category view with a non-empty identifier it asks for the
  category's prompts; in the home view with a query of more than two characters it asks
  for a search; otherwise it does nothing.
\<close>

definition promptsEffect :: "AppState \<Rightarrow> AppState" where
  "promptsEffect s =
     (if view s = CategoryView \<and> activeCategoryId s \<noteq> None \<and> activeCategoryId s \<noteq> Some []
      then s\<lparr>loadingPrompts := True,
              pending := pending s @ [GetPromptsByCategoryId (the (activeCategoryId s))]\<rparr>
      else if view s = Home \<and> length (searchQuery s) > 2
      then s\<lparr>loadingPrompts := True, pending := pending s @ [SearchPrompts (searchQuery s)]\<rparr>
      else s)"

text \<open>
  After a handler the component renders again, and the effect runs when one of its
  dependencies \<open>[view, activeCategoryId, searchQuery]\<close> differs from the previous render.
\<close>

definition rerender :: "AppState \<Rightarrow> AppState \<Rightarrow> AppState" where
  "rerender old new =
     (if view new \<noteq> view old \<or> activeCategoryId new \<noteq> activeCategoryId old
         \<or> searchQuery new \<noteq> searchQuery old
      then promptsEffect new else new)"

definition handleCategoryClick :: "string \<Rightarrow> AppState \<Rightarrow> AppState" where
  "handleCategoryClick i s =
     rerender s (s\<lparr>activeCategoryId := Some i, view := CategoryView, searchQuery := []\<rparr>)"

definition handleBack :: "AppState \<Rightarrow> AppState" where
  "handleBack s =
     rerender s (s\<lparr>view := Home, activeCategoryId := None, searchQuery := [], prompts := []\<rparr>)"

definition handleSearchChange :: "string \<Rightarrow> AppState \<Rightarrow> AppState" where
  "handleSearchChange val s =
     rerender s
       (if length val > 2
        then (if view s \<noteq> Home then s\<lparr>searchQuery := val, view := Home\<rparr>
              else s\<lparr>searchQuery := val\<rparr>)
        else s\<lparr>searchQuery := val\<rparr>)"

text \<open>The button under an empty list: \<open>setSearchQuery('')\<close>.\<close>

definition clearSearchClick :: "AppState \<Rightarrow> AppState" where
  "clearSearchClick s = rerender s (s\<lparr>searchQuery := []\<rparr>)"

text \<open>The synchronous part of \<open>handlePromptClick\<close>, up to its \<open>await\<close>.\<close>

definition handlePromptClick :: "Prompt \<Rightarrow> AppState \<Rightarrow> AppState" where
  "handlePromptClick promptSummary s =
     s\<lparr>selectedPrompt := Some promptSummary, isModalOpen := True,
       pending := pending s @ [GetPromptById (prompt_id promptSummary)]\<rparr>"

definition onClose :: "AppState \<Rightarrow> AppState" where
  "onClose s = s\<lparr>isModalOpen := False\<rparr>"

definition removeAt :: "nat \<Rightarrow> 'a list \<Rightarrow> 'a list" where
  "removeAt i xs = take i xs @ drop (Suc i) xs"

text \<open>
  The continuation after an \<open>await\<close>: the promise at position \<open>i\<close> settles, to what the
  data service gives for its request. A position with no promise changes nothing.
\<close>

definition resolve :: "DataService \<Rightarrow> nat \<Rightarrow> AppState \<Rightarrow> AppState" where
  "resolve ds i s =
     (if length (pending s) \<le> i then s
      else
        (let s' = s\<lparr>pending := removeAt i (pending s)\<rparr> in
         case pending s ! i of
           GetCategories \<Rightarrow>
             (case getCategories ds of
                Resolved cats \<Rightarrow> s'\<lparr>categories := cats, loading := False\<rparr>
              | Rejected \<Rightarrow> s'\<lparr>loading := False\<rparr>)
         | GetPromptsByCategoryId c \<Rightarrow>
             (case getPromptsByCategoryId ds c of
                Resolved data \<Rightarrow> s'\<lparr>prompts := data, loadingPrompts := False\<rparr>
              | Rejected \<Rightarrow> s'\<lparr>loadingPrompts := False\<rparr>)
         | SearchPrompts q \<Rightarrow>
             (case searchPrompts ds q of
                Resolved results \<Rightarrow> s'\<lparr>prompts := results, loadingPrompts := False\<rparr>
              | Rejected \<Rightarrow> s'\<lparr>loadingPrompts := False\<rparr>)
         | GetPromptById p \<Rightarrow>
             (case getPromptById ds p of
                Resolved (Some fullPrompt) \<Rightarrow>
                  s'\<lparr>selectedPrompt :=
                       (if map_option prompt_id (selectedPrompt s) = Some (prompt_id fullPrompt)
                        then Some fullPrompt else selectedPrompt s)\<rparr>
              | Resolved None \<Rightarrow> s'\<lparr>isModalOpen := False\<rparr>
              | Rejected \<Rightarrow> s'\<lparr>isModalOpen := False\<rparr>)))"

datatype Event =
  CategoryClick string | Back | SearchChange string | ClearSearch
  | PromptClick Prompt | CloseModal | Resolve nat

fun step :: "DataService \<Rightarrow> Event \<Rightarrow> AppState \<Rightarrow> AppState" where
  "step ds (CategoryClick i) s = handleCategoryClick i s"
| "step ds Back s = handleBack s"
| "step ds (SearchChange val) s = handleSearchChange val s"
| "step ds ClearSearch s = clearSearchClick s"
| "step ds (PromptClick p) s = handlePromptClick p s"
| "step ds CloseModal s = onClose s"
| "step ds (Resolve i) s = resolve ds i s"

fun run :: "DataService \<Rightarrow> Event list \<Rightarrow> AppState \<Rightarrow> AppState" where
  "run ds [] s = s"
| "run ds (ev # evs) s = run ds evs (step ds ev s)"

subsection \<open>What the component renders\<close>

datatype Crumb = SearchResultsCrumb | CategoryCrumb "string option"

datatype Body = Skeleton | NotFound bool | Items "Prompt list"

datatype Screen = Spinner | CategoryGrid "Category list" | PromptsList Crumb Body

definition activeCategory :: "AppState \<Rightarrow> Category option" where
  "activeCategory s = find (\<lambda>c. Some (category_id c) = activeCategoryId s) (categories s)"

definition filteredCategories :: "AppState \<Rightarrow> Category list" where
  "filteredCategories s =
     (if searchQuery s = [] then categories s
      else filter (\<lambda>c. includes_str (toLowerCase (name c)) (toLowerCase (searchQuery s)))
             (categories s))"

text \<open>\<open>NotFound b\<close>: the empty state, with the button that clears the search when \<open>b\<close>.\<close>

definition renderPromptsList :: "AppState \<Rightarrow> Screen" where
  "renderPromptsList s =
     PromptsList
       (if view s = Home then SearchResultsCrumb
        else CategoryCrumb (map_option name (activeCategory s)))
       (if loadingPrompts s then Skeleton
        else if prompts s = [] then NotFound (view s = Home \<and> searchQuery s \<noteq> [])
        else Items (prompts s))"

definition render :: "AppState \<Rightarrow> Screen" where
  "render s =
     (if loading s then Spinner
      else if view s = Home \<and> searchQuery s = [] then CategoryGrid (filteredCategories s)
      else renderPromptsList s)"

subsection \<open>Order of the responses\<close>

definition isListRequest :: "Request \<Rightarrow> bool" where
  "isListRequest r =
     (case r of GetPromptsByCategoryId c \<Rightarrow> True | SearchPrompts q \<Rightarrow> True | _ \<Rightarrow> False)"

definition listResponse :: "DataService \<Rightarrow> Request \<Rightarrow> Prompt list Outcome" where
  "listResponse ds r =
     (case r of
        GetPromptsByCategoryId c \<Rightarrow> getPromptsByCategoryId ds c
      | SearchPrompts q \<Rightarrow> searchPrompts ds q
      | _ \<Rightarrow> Rejected)"

text \<open>The request the effect makes for a state, if it makes one.\<close>

definition wanted :: "AppState \<Rightarrow> Request option" where
  "wanted s =
     (if view s = CategoryView \<and> activeCategoryId s \<noteq> None \<and> activeCategoryId s \<noteq> Some []
      then Some (GetPromptsByCategoryId (the (activeCategoryId s)))
      else if view s = Home \<and> length (searchQuery s) > 2
      then Some (SearchPrompts (searchQuery s))
      else None)"

text \<open>
  A response arrives in order when no request for a list that was made before its own
  is still outstanding.
\<close>

fun inOrderStep :: "Event \<Rightarrow> AppState \<Rightarrow> bool" where
  "inOrderStep (Resolve i) s =
     (i < length (pending s) \<and> isListRequest (pending s ! i) \<longrightarrow>
        list_all (\<lambda>r. \<not> isListRequest r) (take i (pending s)))"
| "inOrderStep ev s = True"

fun inOrderRun :: "DataService \<Rightarrow> Event list \<Rightarrow> AppState \<Rightarrow> bool" where
  "inOrderRun ds [] s = True"
| "inOrderRun ds (ev # evs) s = (inOrderStep ev s \<and> inOrderRun ds evs (step ds ev s))"

text \<open>The summary of the last click on a prompt, if there was one.\<close>

fun lastClicked :: "Event list \<Rightarrow> Prompt option \<Rightarrow> Prompt option" where
  "lastClicked [] acc = acc"
| "lastClicked (PromptClick p # evs) acc = lastClicked evs (Some p)"
| "lastClicked (ev # evs) acc = lastClicked evs acc"

section \<open>The portal's page script (portal/public/js/app.js)\<close>

text \<open>
  The script's \<open>state\<close> and \<open>cache\<close> objects and the parts of the page it writes to, as
  one record. \<open>fetches\<close> lists the requests sent to the server. The answer of \<open>fetch\<close> is
  a parameter of each loader: the promise rejects (or the body is not JSON), the response
  is not \<open>ok\<close>, or it is \<open>ok\<close> with its parsed body. A loader is taken as a whole, from its
  call to the end of its \<open>finally\<close>: calls made one after the other.
\<close>

datatype 'a Fetch = FetchRejected | NotOk | OkBody 'a

datatype Url = ApiCategories | ApiCategory string | ApiPrompt string | ApiSearch string

datatype PortalView = CategoriesView | PromptsView

datatype PortalContent = Blank | CategoriesGrid "PortalCategory list"

datatype PortalError = CategoriesError

record PortalState =
  currentView :: PortalView
  currentCategoryId :: "string option"
  currentCategoryName :: "string option"
  cache_categories :: "PortalCategory list option"
  cache_prompts :: "string \<rightharpoonup> PortalPrompt"
  contentContainer :: PortalContent
  loadingVisible :: bool
  errorMessage :: "PortalError option"
  modalVisible :: bool
  modalTitle :: string
  modalDescription :: string
  modalPromptContent :: string
  copyButtonPromptId :: "string option"
  alerts :: nat
  fetches :: "Url list"
  searchClearVisible :: bool
  searchResultsVisible :: bool
  searchTimeout :: "string option"

definition renderCategories :: "PortalCategory list \<Rightarrow> PortalState \<Rightarrow> PortalState" where
  "renderCategories cats s = s\<lparr>currentView := CategoriesView, contentContainer := CategoriesGrid cats\<rparr>"

text \<open>
  \<open>loadCategories\<close>. The body's \<open>categories\<close> field is \<open>None\<close> when the body has none: then
  \<open>renderCategories(undefined)\<close> sets the view and throws at \<open>categories.map\<close>, and the
  \<open>catch\<close> shows the error.
\<close>

definition loadCategories :: "PortalCategory list option Fetch \<Rightarrow> PortalState \<Rightarrow> PortalState" where
  "loadCategories response s0 =
     (let s = s0\<lparr>loadingVisible := True, contentContainer := Blank, errorMessage := None\<rparr> in
      case cache_categories s of
        Some cats \<Rightarrow> (renderCategories cats s)\<lparr>loadingVisible := False\<rparr>
      | None \<Rightarrow>
          (let s1 = s\<lparr>fetches := fetches s @ [ApiCategories]\<rparr> in
           case response of
             OkBody (Some cats) \<Rightarrow>
               (renderCategories cats (s1\<lparr>cache_categories := Some cats\<rparr>))\<lparr>loadingVisible := False\<rparr>
           | OkBody None \<Rightarrow>
               s1\<lparr>currentView := CategoriesView, errorMessage := Some CategoriesError,
                  loadingVisible := False\<rparr>
           | _ \<Rightarrow> s1\<lparr>errorMessage := Some CategoriesError, loadingVisible := False\<rparr>))"

text \<open>A list of calls, one after the other, each with the answer the server would give it.\<close>

fun loadCategoriesTimes ::
  "PortalCategory list option Fetch list \<Rightarrow> PortalState \<Rightarrow> PortalState" where
  "loadCategoriesTimes [] s = s"
| "loadCategoriesTimes (r # rs) s = loadCategoriesTimes rs (loadCategories r s)"

text \<open>
  \<open>loadPrompt\<close>: what it returns, or \<open>None\<close> when it throws. The test
  \<open>if (cache.prompts[promptId])\<close> is also passed by an identifier that names a member of
  \<open>Object.prototype\<close>: then that member is returned and nothing is fetched.
\<close>

datatype PromptValue = PromptData PortalPrompt | PrototypeValue

definition loadPrompt ::
  "PortalPrompt Fetch \<Rightarrow> string \<Rightarrow> PortalState \<Rightarrow> PromptValue option \<times> PortalState" where
  "loadPrompt response promptId s =
     (case getMember (cache_prompts s) promptId of
        Own p \<Rightarrow> (Some (PromptData p), s)
      | Inherited \<Rightarrow> (Some PrototypeValue, s)
      | Undefined \<Rightarrow>
          (let s1 = s\<lparr>fetches := fetches s @ [ApiPrompt promptId]\<rparr> in
           case response of
             OkBody data \<Rightarrow>
               (Some (PromptData data),
                s1\<lparr>cache_prompts := (cache_prompts s1)(promptId \<mapsto> data)\<rparr>)
           | _ \<Rightarrow> (None, s1)))"

text \<open>
  \<open>openPromptModal\<close>. A member of \<open>Object.prototype\<close> has no \<open>title\<close>, \<open>description\<close> or
  \<open>prompt\<close>: the three texts are set from \<open>undefined\<close>, which leaves them empty.
\<close>

definition openPromptModal :: "PortalPrompt Fetch \<Rightarrow> string \<Rightarrow> PortalState \<Rightarrow> PortalState" where
  "openPromptModal response promptId s =
     (case loadPrompt response promptId s of
        (Some (PromptData p), s1) \<Rightarrow>
          s1\<lparr>modalTitle := pp_title p, modalDescription := pp_description p,
             modalPromptContent := pp_prompt p, copyButtonPromptId := Some promptId,
             modalVisible := True\<rparr>
      | (Some PrototypeValue, s1) \<Rightarrow>
          s1\<lparr>modalTitle := [], modalDescription := [], modalPromptContent := [],
             copyButtonPromptId := Some promptId, modalVisible := True\<rparr>
      | (None, s1) \<Rightarrow> s1\<lparr>alerts := alerts s1 + 1\<rparr>)"

definition closeModal :: "PortalState \<Rightarrow> PortalState" where
  "closeModal s = s\<lparr>modalVisible := False\<rparr>"

text \<open>
  \<open>handleSearchInput\<close>, with the text of the input field. \<open>searchTimeout\<close> holds the
  query of the timer that is running, if one is: the timer of the previous input is
  cleared, and a new one is started only for a trimmed query of two characters or more.
\<close>

definition handleSearchInput :: "string \<Rightarrow> PortalState \<Rightarrow> PortalState" where
  "handleSearchInput val s0 =
     (let query = trim val;
          s = s0\<lparr>searchClearVisible := (length query > 0), searchTimeout := None\<rparr>
      in if length query = 0 then s\<lparr>searchResultsVisible := False\<rparr>
         else if length query < 2 then s
         else s\<lparr>searchTimeout := Some query\<rparr>)"

section \<open>Notions used in the statements\<close>

text \<open>\<open>q\<close> occurs in \<open>s\<close> as a substring, letter case apart.\<close>

definition ciContains :: "string \<Rightarrow> string \<Rightarrow> bool" where
  "ciContains q s = sublist (toLowerCase q) (toLowerCase s)"

text \<open>The prompts of a listed category, none when its file cannot be read.\<close>

definition isReadable :: "EsmData \<Rightarrow> Category \<Rightarrow> bool" where
  "isReadable d c = (case categoryJson d (category_id c) of Content ps \<Rightarrow> True | _ \<Rightarrow> False)"

definition readablePrompts :: "EsmData \<Rightarrow> Category \<Rightarrow> Prompt list" where
  "readablePrompts d c = (case categoryJson d (category_id c) of Content ps \<Rightarrow> ps | _ \<Rightarrow> [])"

text \<open>The prompts held by the \<open>.json\<close> files of the portal's directory, in its order.\<close>

definition jsonPrompts :: "(string \<times> PortalPrompt File) list \<Rightarrow> PortalPrompt list" where
  "jsonPrompts files =
     concat (map (\<lambda>(file, f). if endsWith file ''.json''
                                then (case f of Content p \<Rightarrow> [p] | _ \<Rightarrow> []) else []) files)"

definition allReadable :: "(string \<times> PortalPrompt File) list \<Rightarrow> bool" where
  "allReadable files =
     list_all (\<lambda>(file, f). endsWith file ''.json'' \<longrightarrow>
                             (case f of Content p \<Rightarrow> True | _ \<Rightarrow> False)) files"

text \<open>The outstanding requests for a list of prompts, oldest first.\<close>

definition listRequests :: "AppState \<Rightarrow> Request list" where
  "listRequests s = filter isListRequest (pending s)"

text \<open>
  The invariant of runs whose responses arrive in order: the newest outstanding request
  for a list is the one the current state asks for, and once none is outstanding the
  list held is its response.
\<close>

definition inSync :: "DataService \<Rightarrow> AppState \<Rightarrow> bool" where
  "inSync ds s =
     ((listRequests s = [] \<longrightarrow> \<not> loadingPrompts s) \<and>
      (\<forall>r. wanted s = Some r \<longrightarrow>
         (if listRequests s = []
          then (\<forall>ps. listResponse ds r = Resolved ps \<longrightarrow> prompts s = ps)
          else last (listRequests s) = r)))"

section \<open>Sample data\<close>

definition codingCategory :: Category where
  "codingCategory =
     \<lparr> category_id = ''coding'', name = ''Coding'', description = ''Prompts for code'',
       iconName = ''Code'', promptCount = 2, gradient = ''from-blue-500'' \<rparr>"

definition emptyCategory :: Category where
  "emptyCategory =
     \<lparr> category_id = ''a'', name = ''Alpha'', description = ''Nothing yet'',
       iconName = ''Default'', promptCount = 0, gradient = ''from-slate-500'' \<rparr>"

definition brokenCategory :: Category where
  "brokenCategory =
     \<lparr> category_id = ''broken'', name = ''Broken'', description = ''File is not JSON'',
       iconName = ''Default'', promptCount = 1, gradient = ''from-red-500'' \<rparr>"

definition refactorPrompt :: Prompt where
  "refactorPrompt =
     \<lparr> prompt_id = ''p1'', categoryId = ''coding'', title = ''Refactor Code'',
       shortDescription = ''Clean up a function'', fullDescription = None, content = None,
       tags = [''refactoring''] \<rparr>"

definition reviewPrompt :: Prompt where
  "reviewPrompt =
     \<lparr> prompt_id = ''p2'', categoryId = ''coding'', title = ''Review a pull request'',
       shortDescription = ''Find defects in a diff'', fullDescription = None, content = None,
       tags = [''review'', ''quality''] \<rparr>"

definition refactorPromptFull :: Prompt where
  "refactorPromptFull =
     refactorPrompt\<lparr>fullDescription := Some ''Rewrite a function without changing what it does'',
                    content := Some ''Refactor the following function: ...''\<rparr>"

definition sampleEsmData :: EsmData where
  "sampleEsmData =
     \<lparr> categoriesJson = Content [codingCategory, brokenCategory, emptyCategory],
       categoryJson = (\<lambda>i. if i = ''coding'' then Content [refactorPrompt, reviewPrompt]
                            else if i = ''a'' then Content []
                            else if i = ''broken'' then Malformed
                            else Missing),
       promptJson = (\<lambda>i. if i = ''p1'' then Content refactorPromptFull else Missing) \<rparr>"

definition slogansPortalPrompt :: PortalPrompt where
  "slogansPortalPrompt =
     \<lparr> pp_id = ''slogan'', pp_categoryId = ''marketing'', pp_title = ''Alpha slogan'',
       pp_description = ''Short slogans'', pp_prompt = ''Write five slogans for the product'' \<rparr>"

definition samplePortalData :: PortalData where
  "samplePortalData =
     \<lparr> p_categoriesJson =
         Content [\<lparr> pc_id = ''marketing'', pc_name = ''Marketing'', pc_image = ''M'',
                    pc_promptCount = 1 \<rparr>],
       p_categoryJson =
         (\<lambda>i. if i = ''marketing''
               then Content [\<lparr> ps_id = ''slogan'', ps_title = ''Alpha slogan'',
                                ps_description = ''Short slogans'' \<rparr>]
               else if i = ''a'' then Content []
               else Missing),
       promptsDir = Content [(''README.md'', Malformed), (''slogan.json'', Content slogansPortalPrompt)] \<rparr>"

text \<open>
  A data service whose search answers \<open>cod\<close> with two prompts and any other query with
  the first of them, and which knows the detail of \<open>p1\<close> alone.
\<close>

definition sampleService :: DataService where
  "sampleService =
     \<lparr> getCategories = Resolved [codingCategory],
       getPromptsByCategoryId = (\<lambda>c. if c = ''coding'' then Resolved [refactorPrompt, reviewPrompt]
                                      else Rejected),
       searchPrompts = (\<lambda>q. if q = ''cod'' then Resolved [refactorPrompt, reviewPrompt]
                             else Resolved [refactorPrompt]),
       getPromptById = (\<lambda>p. if p = ''p1'' then Resolved (Some refactorPromptFull)
                             else if p = ''p2'' then Resolved None
                             else Rejected) \<rparr>"

definition samplePortalState :: PortalState where
  "samplePortalState =
     \<lparr> currentView = CategoriesView, currentCategoryId = None, currentCategoryName = None,
       cache_categories = None, cache_prompts = Map.empty, contentContainer = Blank,
       loadingVisible = False, errorMessage = None, modalVisible = False, modalTitle = [],
       modalDescription = [], modalPromptContent = [], copyButtonPromptId = None,
       alerts = 0, fetches = [], searchClearVisible = False, searchResultsVisible = False,
       searchTimeout = None \<rparr>"

section \<open>Facts about strings and the servers\<close>

lemma length_toLowerCase: "length (toLowerCase s) = length s"
  by (simp add: toLowerCase_def)

lemma startsWith_prefix: "startsWith s q \<longleftrightarrow> prefix q s"
  by (induction s q rule: startsWith.induct) auto

lemma includes_str_sublist: "includes_str s q \<longleftrightarrow> sublist q s"
  by (induction s) (auto simp: startsWith_prefix sublist_Cons_right)

lemma collectPrompts_eq:
  "collectPrompts d cs (a, l) =
     (a @ concat (map (readablePrompts d) cs), l @ map (\<lambda>c. CategoryJson (category_id c)) cs)"
  by (induction cs arbitrary: a l) (auto simp: readablePrompts_def split: File.splits)

lemma concat_readable_filter:
  "concat (map (readablePrompts d) (filter (isReadable d) cs)) = concat (map (readablePrompts d) cs)"
  by (induction cs) (auto simp: readablePrompts_def isReadable_def split: File.splits)

lemma esm_matches_ci:
  "esm_matches (toLowerCase q) p \<longleftrightarrow>
     ciContains q (title p) \<or> ciContains q (shortDescription p) \<or> (\<exists>tag \<in> set (tags p). ciContains q tag)"
  by (simp add: esm_matches_def ciContains_def includes_str_sublist list_ex_iff)

lemma esm_search_long:
  assumes "2 \<le> length (toLowerCase q)" "categoriesJson d = Content cats"
  shows "esm_search d (Some q) =
     (Json (filter (esm_matches (toLowerCase q)) (concat (map (readablePrompts d) cats))),
      CategoriesJson # map (\<lambda>c. CategoryJson (category_id c)) cats)"
  using assms by (auto simp: esm_search_def collectPrompts_eq)





lemma jsonPrompts_simps:
  "jsonPrompts [] = []"
  "jsonPrompts ((fname, f) # files) =
     (if endsWith fname ''.json'' then (case f of Content p \<Rightarrow> [p] | _ \<Rightarrow> []) else [])
     @ jsonPrompts files"
  by (simp_all add: jsonPrompts_def)

lemma allReadable_Cons:
  "allReadable ((fname, f) # files) \<longleftrightarrow>
     (endsWith fname ''.json'' \<longrightarrow> (\<exists>p. f = Content p)) \<and> allReadable files"
  by (cases f) (simp_all add: allReadable_def)

lemma scanPromptFiles_readable:
  "allReadable files \<Longrightarrow>
   fst (scanPromptFiles q m files (rs, l)) =
     Some (rs @ map (toSearchResult m) (filter (portal_matches q) (jsonPrompts files)))"
proof (induction files arbitrary: rs l)
  case Nil
  then show ?case by (simp add: jsonPrompts_simps)
next
  case (Cons a files)
  obtain fname f where a: "a = (fname, f)" by (cases a)
  from Cons.prems have rest: "allReadable files" by (simp add: a allReadable_Cons)
  note IH = Cons.IH [OF rest]
  show ?case
  proof (cases "endsWith fname ''.json''")
    case True
    with Cons.prems obtain p where f: "f = Content p"
      by (auto simp: a allReadable_Cons)
    show ?thesis
      by (simp add: a f True jsonPrompts_simps IH)
  next
    case False
    then show ?thesis
      by (simp add: a jsonPrompts_simps IH)
  qed
qed

lemma portal_search_readable:
  assumes "trim q \<noteq> []" "p_categoriesJson d = Content cats" "promptsDir d = Content files"
    "allReadable files"
  shows "fst (portal_search d (Some q)) =
     Json (map (toSearchResult (buildCategoriesMap cats))
            (filter (portal_matches (trim (toLowerCase q))) (jsonPrompts files)))"
proof -
  from assms(1) have "q \<noteq> []" by (auto simp: trim_def)
  moreover obtain r l where sc: "scanPromptFiles (trim (toLowerCase q)) (buildCategoriesMap cats) files
      ([], [CategoriesJson, PromptsDir]) = (r, l)" by (cases "scanPromptFiles (trim (toLowerCase q)) (buildCategoriesMap cats) files
      ([], [CategoriesJson, PromptsDir])")
  moreover from scanPromptFiles_readable [OF assms(4), of "trim (toLowerCase q)" "buildCategoriesMap cats" "[]" "[CategoriesJson, PromptsDir]"] sc
  have "r = Some (map (toSearchResult (buildCategoriesMap cats))
            (filter (portal_matches (trim (toLowerCase q))) (jsonPrompts files)))" by simp
  ultimately show ?thesis using assms by (simp add: portal_search_def)
qed

section \<open>Facts about the React application\<close>

lemmas react_defs =
  step.simps run.simps handleSearchChange_def handleCategoryClick_def handleBack_def
  clearSearchClick_def handlePromptClick_def onClose_def rerender_def promptsEffect_def
  resolve_def removeAt_def initialState_def sampleService_def Let_def

lemma render_wanted:
  assumes "wanted s = Some r" "\<not> loading s"
  shows "render s = renderPromptsList s"
proof -
  from assms(1) have "\<not> (view s = Home \<and> searchQuery s = [])"
    by (auto simp: wanted_def split: if_splits)
  with assms(2) show ?thesis by (auto simp: render_def)
qed

lemma wanted_Home_query: "wanted s = Some r \<Longrightarrow> view s = Home \<Longrightarrow> searchQuery s \<noteq> []"
  by (auto simp: wanted_def split: if_splits)

lemma selectedPrompt_id_resolve:
  "map_option prompt_id (selectedPrompt (resolve ds i s)) = map_option prompt_id (selectedPrompt s)"
  by (cases "pending s ! i")
     (auto simp: resolve_def Let_def split: Outcome.splits option.splits)

lemma selectedPrompt_rerender:
  "selectedPrompt (rerender old new) = selectedPrompt new"
  by (simp add: rerender_def promptsEffect_def)

lemma selectedPrompt_id_step:
  "map_option prompt_id (selectedPrompt (step ds ev s)) =
     map_option prompt_id (lastClicked [ev] (selectedPrompt s))"
  by (cases ev)
     (simp_all add: handleCategoryClick_def handleBack_def handleSearchChange_def
        clearSearchClick_def handlePromptClick_def onClose_def selectedPrompt_rerender
        selectedPrompt_id_resolve)

lemma lastClicked_id:
  "map_option prompt_id a = map_option prompt_id b \<Longrightarrow>
   map_option prompt_id (lastClicked evs a) = map_option prompt_id (lastClicked evs b)"
  by (induction evs a arbitrary: b rule: lastClicked.induct) simp_all

lemma selectedPrompt_id_run:
  "map_option prompt_id (selectedPrompt (run ds evs s)) =
     map_option prompt_id (lastClicked evs (selectedPrompt s))"
proof (induction evs arbitrary: s)
  case Nil
  show ?case by simp
next
  case (Cons ev evs)
  have "map_option prompt_id (selectedPrompt (run ds (ev # evs) s)) =
        map_option prompt_id (lastClicked evs (selectedPrompt (step ds ev s)))"
    by (simp add: Cons.IH)
  also have "\<dots> = map_option prompt_id (lastClicked evs (lastClicked [ev] (selectedPrompt s)))"
    by (rule lastClicked_id) (rule selectedPrompt_id_step)
  also have "lastClicked evs (lastClicked [ev] (selectedPrompt s)) =
             lastClicked (ev # evs) (selectedPrompt s)"
    by (cases ev) simp_all
  finally show ?case .
qed

subsection \<open>Responses in the order of their requests\<close>

lemma promptsEffect_wanted:
  "promptsEffect s =
     (case wanted s of
        None \<Rightarrow> s
      | Some r \<Rightarrow> s\<lparr>loadingPrompts := True, pending := pending s @ [r]\<rparr>)"
  by (cases "activeCategoryId s") (simp_all add: promptsEffect_def wanted_def)

lemma wanted_isListRequest: "wanted s = Some r \<Longrightarrow> isListRequest r"
  by (auto simp: wanted_def isListRequest_def split: if_splits)

lemma wanted_cong:
  "view t = view s \<Longrightarrow> activeCategoryId t = activeCategoryId s \<Longrightarrow> searchQuery t = searchQuery s
   \<Longrightarrow> wanted t = wanted s"
  by (simp add: wanted_def)

lemma inSync_cong:
  assumes "inSync ds s" "listRequests t = listRequests s" "wanted t = wanted s"
    "prompts t = prompts s" "loadingPrompts t = loadingPrompts s"
  shows "inSync ds t"
  using assms by (simp add: inSync_def)

lemma inSync_rerender:
  assumes "inSync ds old" "pending new = pending old" "loadingPrompts new = loadingPrompts old"
    "wanted new = None \<or> prompts new = prompts old"
  shows "inSync ds (rerender old new)"
proof (cases "view new \<noteq> view old \<or> activeCategoryId new \<noteq> activeCategoryId old
         \<or> searchQuery new \<noteq> searchQuery old")
  case True
  then have r: "rerender old new = promptsEffect new" by (simp add: rerender_def)
  show ?thesis
  proof (cases "wanted new")
    case None
    then have "promptsEffect new = new" by (simp add: promptsEffect_wanted)
    with r None assms show ?thesis by (simp add: inSync_def listRequests_def)
  next
    case (Some w)
    then have e: "promptsEffect new = new\<lparr>loadingPrompts := True, pending := pending new @ [w]\<rparr>"
      by (simp add: promptsEffect_wanted)
    have "wanted (new\<lparr>loadingPrompts := True, pending := pending new @ [w]\<rparr>) = wanted new"
      by (rule wanted_cong) simp_all
    with Some have "wanted (new\<lparr>loadingPrompts := True, pending := pending new @ [w]\<rparr>) = Some w"
      by simp
    with r e wanted_isListRequest [OF Some] show ?thesis
      by (simp add: inSync_def listRequests_def)
  qed
next
  case False
  then have r: "rerender old new = new" by (simp add: rerender_def)
  from False have w: "wanted new = wanted old" by (intro wanted_cong) simp_all
  have l: "listRequests new = listRequests old" using assms(2) by (simp add: listRequests_def)
  show ?thesis
  proof (cases "wanted new")
    case None
    with w l assms(1,3) show ?thesis by (simp add: r inSync_def)
  next
    case (Some a)
    with assms(4) have "prompts new = prompts old" by simp
    with w l assms(3) show ?thesis unfolding r by (intro inSync_cong [OF assms(1)])
  qed
qed

lemma filter_removeAt_other:
  "i < length xs \<Longrightarrow> \<not> P (xs ! i) \<Longrightarrow> filter P (removeAt i xs) = filter P xs"
proof -
  assume a: "i < length xs" "\<not> P (xs ! i)"
  have "filter P xs = filter P (take i xs @ xs ! i # drop (Suc i) xs)"
    using a(1) by (simp add: id_take_nth_drop [symmetric])
  with a(2) show ?thesis by (simp add: removeAt_def)
qed

lemma filter_removeAt_first:
  assumes "i < length xs" "P (xs ! i)" "list_all (\<lambda>r. \<not> P r) (take i xs)"
  shows "filter P xs = xs ! i # filter P (removeAt i xs)"
proof -
  have "filter P (take i xs) = []" using assms(3) by (simp add: list_all_iff filter_empty_conv)
  moreover have "filter P xs = filter P (take i xs @ xs ! i # drop (Suc i) xs)"
    using assms(1) by (simp add: id_take_nth_drop [symmetric])
  ultimately show ?thesis using assms(2) by (simp add: removeAt_def)
qed

lemma resolve_view: "view (resolve ds i s) = view s"
  by (cases "pending s ! i")
     (auto simp: resolve_def Let_def split: Outcome.splits option.splits)

lemma resolve_activeCategoryId: "activeCategoryId (resolve ds i s) = activeCategoryId s"
  by (cases "pending s ! i")
     (auto simp: resolve_def Let_def split: Outcome.splits option.splits)

lemma resolve_searchQuery: "searchQuery (resolve ds i s) = searchQuery s"
  by (cases "pending s ! i")
     (auto simp: resolve_def Let_def split: Outcome.splits option.splits)

lemma inSync_resolve:
  assumes "inSync ds s" "inOrderStep (Resolve i) s"
  shows "inSync ds (resolve ds i s)"
proof (cases "length (pending s) \<le> i")
  case True
  then show ?thesis using assms(1) by (simp add: resolve_def)
next
  case False
  then have i: "i < length (pending s)" by simp
  show ?thesis
  proof (cases "isListRequest (pending s ! i)")
    case False
    have same: "filter isListRequest (removeAt i (pending s)) = filter isListRequest (pending s)"
      using i False by (rule filter_removeAt_other)
    have "listRequests (resolve ds i s) = listRequests s"
      using i False same by (cases "pending s ! i")
         (auto simp: resolve_def Let_def isListRequest_def listRequests_def
               split: Outcome.splits option.splits)
    moreover have "wanted (resolve ds i s) = wanted s"
      by (rule wanted_cong) (simp_all add: resolve_view resolve_activeCategoryId resolve_searchQuery)
    moreover have "prompts (resolve ds i s) = prompts s"
      using i False by (cases "pending s ! i")
         (auto simp: resolve_def Let_def isListRequest_def split: Outcome.splits option.splits)
    moreover have "loadingPrompts (resolve ds i s) = loadingPrompts s"
      using i False by (cases "pending s ! i")
         (auto simp: resolve_def Let_def isListRequest_def split: Outcome.splits option.splits)
    ultimately show ?thesis by (rule inSync_cong [OF assms(1)])
  next
    case True
    with assms(2) i have "list_all (\<lambda>r. \<not> isListRequest r) (take i (pending s))" by simp
    with i True have L: "listRequests s = pending s ! i # filter isListRequest (removeAt i (pending s))"
      unfolding listRequests_def by (rule filter_removeAt_first)
    define rest where "rest = filter isListRequest (removeAt i (pending s))"
    have w: "wanted (resolve ds i s) = wanted s"
      by (rule wanted_cong) (simp_all add: resolve_view resolve_activeCategoryId resolve_searchQuery)
    have lr: "listRequests (resolve ds i s) = rest"
      using i by (cases "pending s ! i")
        (auto simp: resolve_def Let_def listRequests_def rest_def split: Outcome.splits option.splits)
    have lp: "\<not> loadingPrompts (resolve ds i s)"
      using i True by (cases "pending s ! i")
        (auto simp: resolve_def Let_def isListRequest_def split: Outcome.splits option.splits)
    have pr: "listResponse ds (pending s ! i) = Resolved ps \<Longrightarrow> prompts (resolve ds i s) = ps" for ps
      using i True by (cases "pending s ! i")
        (auto simp: resolve_def Let_def isListRequest_def listResponse_def split: Outcome.splits option.splits)
    show ?thesis
      unfolding inSync_def
    proof (intro conjI allI impI)
      show "\<not> loadingPrompts (resolve ds i s)" by (rule lp)
    next
      fix r assume "wanted (resolve ds i s) = Some r"
      then have ws: "wanted s = Some r" by (simp add: w)
      with assms(1) L have last: "last (pending s ! i # rest) = r"
        by (simp add: inSync_def rest_def)
      show "if listRequests (resolve ds i s) = []
          then \<forall>ps. listResponse ds r = Resolved ps \<longrightarrow> prompts (resolve ds i s) = ps
          else last (listRequests (resolve ds i s)) = r"
      proof (cases "rest = []")
        case True
        with last have "pending s ! i = r" by simp
        with pr True lr show ?thesis by auto
      next
        case False
        with last lr show ?thesis by simp
      qed
    qed
  qed
qed

lemma inSync_step:
  assumes "inSync ds s" "inOrderStep ev s"
  shows "inSync ds (step ds ev s)"
proof (cases ev)
  case (CategoryClick c)
  show ?thesis unfolding CategoryClick step.simps handleCategoryClick_def
    by (rule inSync_rerender [OF assms(1)]) simp_all
next
  case Back
  show ?thesis unfolding Back step.simps handleBack_def
    by (rule inSync_rerender [OF assms(1)]) (simp_all add: wanted_def)
next
  case (SearchChange val)
  show ?thesis unfolding SearchChange step.simps handleSearchChange_def
    by (rule inSync_rerender [OF assms(1)]) simp_all
next
  case ClearSearch
  show ?thesis unfolding ClearSearch step.simps clearSearchClick_def
    by (rule inSync_rerender [OF assms(1)]) simp_all
next
  case (PromptClick p)
  have "wanted (handlePromptClick p s) = wanted s"
    by (rule wanted_cong) (simp_all add: handlePromptClick_def)
  then show ?thesis unfolding PromptClick step.simps
    by (intro inSync_cong [OF assms(1)])
       (simp_all add: handlePromptClick_def listRequests_def isListRequest_def)
next
  case CloseModal
  have "wanted (onClose s) = wanted s"
    by (rule wanted_cong) (simp_all add: onClose_def)
  then show ?thesis unfolding CloseModal step.simps
    by (intro inSync_cong [OF assms(1)]) (simp_all add: onClose_def listRequests_def)
next
  case (Resolve i)
  with assms show ?thesis by (simp add: inSync_resolve)
qed

lemma inSync_run:
  "inSync ds s \<Longrightarrow> inOrderRun ds evs s \<Longrightarrow> inSync ds (run ds evs s)"
  by (induction evs arbitrary: s) (simp_all add: inSync_step)

lemma inSync_initialState: "inSync ds initialState"
  by (simp add: inSync_def initialState_def listRequests_def wanted_def isListRequest_def)

section \<open>Results\<close>

text \<open>
  C1. The claim is that whatever the order in which outstanding responses resolve, what is
  shown corresponds to the last user action. No response is compared with the current
  query or category, so this holds for the responses that resolve in the order of their
  requests: in a run of the React application where no response for a list of prompts
  overtakes an older one, once none is outstanding, a state that asks for a list (a
  category view, or the home view under a query of more than two characters) holds and
  shows the data service's answer to exactly that request.
\<close>

theorem responses_in_order_show_current_request:
  assumes "inOrderRun ds evs initialState"
    and "listRequests (run ds evs initialState) = []"
    and "wanted (run ds evs initialState) = Some r"
    and "listResponse ds r = Resolved ps"
  shows "prompts (run ds evs initialState) = ps \<and>
         \<not> loadingPrompts (run ds evs initialState) \<and>
         (\<not> loading (run ds evs initialState) \<longrightarrow>
            render (run ds evs initialState) =
              PromptsList
                (if view (run ds evs initialState) = Home then SearchResultsCrumb
                 else CategoryCrumb (map_option name (activeCategory (run ds evs initialState))))
                (if ps = [] then NotFound (view (run ds evs initialState) = Home) else Items ps))"
proof -
  let ?s = "run ds evs initialState"
  have "inSync ds ?s"
    using inSync_initialState assms(1) by (rule inSync_run)
  with assms(2,3,4) have p: "prompts ?s = ps" and l: "\<not> loadingPrompts ?s"
    by (simp_all add: inSync_def)
  have "render ?s =
      PromptsList
        (if view ?s = Home then SearchResultsCrumb
         else CategoryCrumb (map_option name (activeCategory ?s)))
        (if ps = [] then NotFound (view ?s = Home) else Items ps)"
    if "\<not> loading ?s"
    using render_wanted [OF assms(3) that] wanted_Home_query [OF assms(3)] p l
    by (auto simp: renderPromptsList_def)
  with p l show ?thesis by blast
qed

theorem responses_in_order_witness:
  "inOrderRun sampleService
     [Resolve 0, SearchChange ''cod'', SearchChange ''code'', Resolve 0, Resolve 0] initialState \<and>
   listRequests (run sampleService
     [Resolve 0, SearchChange ''cod'', SearchChange ''code'', Resolve 0, Resolve 0] initialState) = [] \<and>
   wanted (run sampleService
     [Resolve 0, SearchChange ''cod'', SearchChange ''code'', Resolve 0, Resolve 0] initialState)
     = Some (SearchPrompts ''code'') \<and>
   listResponse sampleService (SearchPrompts ''code'') = Resolved [refactorPrompt] \<and>
   prompts (run sampleService
     [Resolve 0, SearchChange ''cod'', SearchChange ''code'', Resolve 0, Resolve 0] initialState)
     = [refactorPrompt]"
proof -
  let ?evs = "[Resolve 0, SearchChange ''cod'', SearchChange ''code'', Resolve 0, Resolve 0]"
  have h1: "inOrderRun sampleService ?evs initialState"
    by (simp add: react_defs isListRequest_def)
  have h2: "listRequests (run sampleService ?evs initialState) = []"
    by (simp add: react_defs listRequests_def)
  have h3: "wanted (run sampleService ?evs initialState) = Some (SearchPrompts ''code'')"
    by (simp add: react_defs wanted_def)
  have h4: "listResponse sampleService (SearchPrompts ''code'') = Resolved [refactorPrompt]"
    by (simp add: listResponse_def sampleService_def)
  from responses_in_order_show_current_request [OF h1 h2 h3 h4] h1 h2 h3 h4
  show ?thesis by blast
qed

text \<open>
  The query \<open>cod\<close> is followed by \<open>code\<close>; the answer to \<open>code\<close> arrives first and the
  answer to \<open>cod\<close> second. Nothing is outstanding any more, the input holds \<open>code\<close>, and
  the list shown is the answer to \<open>cod\<close>.
\<close>

theorem stale_search_response_overwrites:
  "wanted (run sampleService
     [Resolve 0, SearchChange ''cod'', SearchChange ''code'', Resolve 1, Resolve 0] initialState)
     = Some (SearchPrompts ''code'') \<and>
   pending (run sampleService
     [Resolve 0, SearchChange ''cod'', SearchChange ''code'', Resolve 1, Resolve 0] initialState) = [] \<and>
   listResponse sampleService (SearchPrompts ''code'') = Resolved [refactorPrompt] \<and>
   listResponse sampleService (SearchPrompts ''cod'') = Resolved [refactorPrompt, reviewPrompt] \<and>
   render (run sampleService
     [Resolve 0, SearchChange ''cod'', SearchChange ''code'', Resolve 1, Resolve 0] initialState)
     = PromptsList SearchResultsCrumb (Items [refactorPrompt, reviewPrompt]) \<and>
   [refactorPrompt, reviewPrompt] \<noteq> [refactorPrompt]"
  by (simp add: react_defs wanted_def listResponse_def render_def renderPromptsList_def)

text \<open>
  C2. When the detail of a prompt arrives, the selected prompt is replaced by it exactly
  when the selection has the identifier of the detail; otherwise the state is the one
  before, less the settled promise, and the page and the overlay are as they were. So
  the identifier of the selected prompt is, after any sequence of events, that of the
  summary clicked last.
\<close>

theorem detail_replaces_only_same_id:
  "map_option prompt_id (selectedPrompt (run ds evs initialState)) =
     map_option prompt_id (lastClicked evs None) \<and>
   (i < length (pending s) \<and> pending s ! i = GetPromptById p \<and>
    getPromptById ds p = Resolved (Some fullPrompt) \<longrightarrow>
      selectedPrompt (resolve ds i s) =
        (if map_option prompt_id (selectedPrompt s) = Some (prompt_id fullPrompt)
         then Some fullPrompt else selectedPrompt s) \<and>
      map_option prompt_id (selectedPrompt (resolve ds i s)) =
        map_option prompt_id (selectedPrompt s) \<and>
      isModalOpen (resolve ds i s) = isModalOpen s \<and>
      render (resolve ds i s) = render s \<and>
      (map_option prompt_id (selectedPrompt s) \<noteq> Some (prompt_id fullPrompt) \<longrightarrow>
         resolve ds i s = s\<lparr>pending := removeAt i (pending s)\<rparr>))"
proof -
  have "map_option prompt_id (selectedPrompt (run ds evs initialState)) =
     map_option prompt_id (lastClicked evs None)"
    by (simp add: selectedPrompt_id_run initialState_def)
  moreover have "render (s\<lparr>pending := xs, selectedPrompt := y\<rparr>) = render s" for xs y
    by (simp add: render_def renderPromptsList_def filteredCategories_def activeCategory_def)
  ultimately show ?thesis
    by (auto simp: resolve_def Let_def)
qed

theorem detail_replaces_only_same_id_witness:
  "pending (run sampleService [PromptClick refactorPrompt, PromptClick reviewPrompt] initialState) ! 1
     = GetPromptById ''p1'' \<and>
   getPromptById sampleService ''p1'' = Resolved (Some refactorPromptFull) \<and>
   selectedPrompt (resolve sampleService 1
     (run sampleService [PromptClick refactorPrompt, PromptClick reviewPrompt] initialState))
     = Some reviewPrompt \<and>
   selectedPrompt (run sampleService [PromptClick refactorPrompt, Resolve 1] initialState)
     = Some refactorPromptFull"
proof -
  let ?s = "run sampleService [PromptClick refactorPrompt, PromptClick reviewPrompt] initialState"
  let ?t = "run sampleService [PromptClick refactorPrompt] initialState"
  have a: "1 < length (pending ?s) \<and> pending ?s ! 1 = GetPromptById ''p1'' \<and>
           getPromptById sampleService ''p1'' = Resolved (Some refactorPromptFull)"
    by (simp add: react_defs refactorPrompt_def)
  have b: "1 < length (pending ?t) \<and> pending ?t ! 1 = GetPromptById ''p1'' \<and>
           getPromptById sampleService ''p1'' = Resolved (Some refactorPromptFull)"
    by (simp add: react_defs refactorPrompt_def)
  have s: "selectedPrompt ?s = Some reviewPrompt" "selectedPrompt ?t = Some refactorPrompt"
    by (simp_all add: react_defs)
  have ids: "prompt_id reviewPrompt \<noteq> prompt_id refactorPromptFull"
    "prompt_id refactorPrompt = prompt_id refactorPromptFull"
    by (simp_all add: reviewPrompt_def refactorPromptFull_def refactorPrompt_def)
  have r: "run sampleService [PromptClick refactorPrompt, Resolve 1] initialState =
           resolve sampleService 1 ?t" by simp
  from detail_replaces_only_same_id [of sampleService "[]" 1 ?s "''p1''" refactorPromptFull] a s ids
  have "selectedPrompt (resolve sampleService 1 ?s) = Some reviewPrompt" by simp
  moreover
  from detail_replaces_only_same_id [of sampleService "[]" 1 ?t "''p1''" refactorPromptFull] b s ids
  have "selectedPrompt (resolve sampleService 1 ?t) = Some refactorPromptFull" by simp
  ultimately show ?thesis using a r by simp
qed

text \<open>
  C3. The claim is that every query of fewer than two characters is answered with an
  empty sequence and without a read. The ESM server does so for every query whose
  lower-cased text has fewer than two characters, and for a request without a query. The
  portal server answers so only when the query is absent, empty or white space, and
  searches for a single character; there the minimum of two characters is kept by the
  page script, which starts its timer for longer queries only. (In this model the
  lower-cased text has the length of the query, \<open>length_toLowerCase\<close>.)
\<close>

theorem short_query_short_circuits:
  "(length (toLowerCase q) < 2 \<longrightarrow> esm_search d (Some q) = (Json [], [])) \<and>
   esm_search d None = (Json [], []) \<and>
   (trim q = [] \<longrightarrow> portal_search pd (Some q) = (Json [], [])) \<and>
   portal_search pd None = (Json [], [])"
  by (simp add: esm_search_def portal_search_def)

theorem short_query_short_circuits_witness:
  "length (toLowerCase ''x'') < 2 \<and> esm_search sampleEsmData (Some ''x'') = (Json [], []) \<and>
   trim '' '' = [] \<and> portal_search samplePortalData (Some '' '') = (Json [], [])"
proof -
  have a: "length (toLowerCase ''x'') < 2" by (simp add: toLowerCase_def)
  have b: "trim '' '' = []" by (simp add: trim_def isWhiteSpace_def)
  from short_query_short_circuits [where q = "''x''" and d = sampleEsmData] a
  have "esm_search sampleEsmData (Some ''x'') = (Json [], [])" by blast
  moreover
  from short_query_short_circuits [where q = "'' ''" and pd = samplePortalData] b
  have "portal_search samplePortalData (Some '' '') = (Json [], [])" by blast
  ultimately show ?thesis using a b by blast
qed

text \<open>The portal server, asked for the one letter \<open>a\<close>, reads the store and finds a prompt.\<close>

theorem portal_searches_single_character:
  "length ''a'' < 2 \<and>
   portal_search samplePortalData (Some ''a'') =
     (Json [\<lparr> sr_id = ''slogan'', sr_categoryId = ''marketing'',
              sr_categoryName = Named ''Marketing'', sr_title = ''Alpha slogan'',
              sr_description = ''Short slogans'' \<rparr>],
      [CategoriesJson, PromptsDir, PromptFile ''slogan.json''])"
  by (simp add: portal_search_def samplePortalData_def trim_def isWhiteSpace_def
        toLowerCase_def toLowerChar_def endsWith_def buildCategoriesMap_def portal_matches_def
        toSearchResult_def lookupCategoryName_def getMember_def slogansPortalPrompt_def)

lemma page_script_minimum:
  "searchTimeout (handleSearchInput val s) = Some q \<Longrightarrow> q = trim val \<and> 2 \<le> length q"
  by (auto simp: handleSearchInput_def Let_def split: if_splits)

text \<open>
  C4. The claim is that a prompt is found exactly when the query occurs, letter case
  apart, in its title, its description or one of its tags, and that the results keep the
  order of the store. This is what the ESM server returns for a query of at least two
  characters: the prompts of the readable category files, in the order of the listing
  and of each file, filtered by that test on title, short description and tags. The
  portal server tests the trimmed query against title, description and the body of the
  prompt, and has no tags to test; its results keep the order of the directory.
\<close>

theorem search_results_are_the_matching_prompts:
  "(2 \<le> length (toLowerCase q) \<and> categoriesJson d = Content cats \<longrightarrow>
      fst (esm_search d (Some q)) =
        Json (filter (\<lambda>p. ciContains q (title p) \<or> ciContains q (shortDescription p) \<or>
                           (\<exists>tag \<in> set (tags p). ciContains q tag))
                (concat (map (readablePrompts d) cats)))) \<and>
   (trim q \<noteq> [] \<and> p_categoriesJson pd = Content pcats \<and> promptsDir pd = Content files \<and>
    allReadable files \<longrightarrow>
      fst (portal_search pd (Some q)) =
        Json (map (toSearchResult (buildCategoriesMap pcats))
               (filter (\<lambda>p. sublist (trim (toLowerCase q)) (toLowerCase (pp_title p)) \<or>
                             sublist (trim (toLowerCase q)) (toLowerCase (pp_description p)) \<or>
                             sublist (trim (toLowerCase q)) (toLowerCase (pp_prompt p)))
                  (jsonPrompts files))))"
proof -
  have "esm_matches (toLowerCase q) =
        (\<lambda>p. ciContains q (title p) \<or> ciContains q (shortDescription p) \<or>
              (\<exists>tag \<in> set (tags p). ciContains q tag))"
    by (rule ext) (rule esm_matches_ci)
  moreover have "portal_matches (trim (toLowerCase q)) =
        (\<lambda>p. sublist (trim (toLowerCase q)) (toLowerCase (pp_title p)) \<or>
              sublist (trim (toLowerCase q)) (toLowerCase (pp_description p)) \<or>
              sublist (trim (toLowerCase q)) (toLowerCase (pp_prompt p)))"
    by (rule ext) (simp add: portal_matches_def includes_str_sublist)
  ultimately show ?thesis
    using esm_search_long [of q d cats] portal_search_readable [of q pd pcats files]
    by auto
qed

theorem search_results_are_the_matching_prompts_witness:
  "2 \<le> length (toLowerCase ''QUAL'') \<and>
   categoriesJson sampleEsmData = Content [codingCategory, brokenCategory, emptyCategory] \<and>
   fst (esm_search sampleEsmData (Some ''QUAL'')) = Json [reviewPrompt] \<and>
   trim ''FIVE slogans '' \<noteq> [] \<and> allReadable [(''README.md'', Malformed), (''slogan.json'', Content slogansPortalPrompt)] \<and>
   fst (portal_search samplePortalData (Some ''FIVE slogans '')) =
     Json [toSearchResult [''marketing'' \<mapsto> ''Marketing''] slogansPortalPrompt]"
proof -
  let ?files = "[(''README.md'', Malformed), (''slogan.json'', Content slogansPortalPrompt)]"
  let ?pcats = "[\<lparr> pc_id = ''marketing'', pc_name = ''Marketing'', pc_image = ''M'',
                    pc_promptCount = 1 \<rparr>]"
  have a: "2 \<le> length (toLowerCase ''QUAL'')" by (simp add: toLowerCase_def)
  have b: "categoriesJson sampleEsmData = Content [codingCategory, brokenCategory, emptyCategory]"
    by (simp add: sampleEsmData_def)
  have c: "trim ''FIVE slogans '' \<noteq> []" by (simp add: trim_def isWhiteSpace_def)
  have d: "p_categoriesJson samplePortalData = Content ?pcats"
    "promptsDir samplePortalData = Content ?files"
    by (simp_all add: samplePortalData_def)
  have e: "allReadable ?files" by (simp add: allReadable_def endsWith_def)
  have ci: "ciContains q s = includes_str (toLowerCase s) (toLowerCase q)" for q s
    by (simp add: ciContains_def includes_str_sublist)
  have lq: "toLowerCase ''QUAL'' = ''qual''" "trim (toLowerCase ''FIVE slogans '') = ''five slogans''"
    by (simp_all add: toLowerCase_def toLowerChar_def trim_def isWhiteSpace_def)
  note esm = search_results_are_the_matching_prompts
    [where q = "''QUAL''" and d = sampleEsmData
       and cats = "[codingCategory, brokenCategory, emptyCategory]"]
  note portal = search_results_are_the_matching_prompts
    [where q = "''FIVE slogans ''" and pd = samplePortalData and pcats = ?pcats
       and files = ?files]
  from esm a b have "fst (esm_search sampleEsmData (Some ''QUAL'')) =
     Json (filter (\<lambda>p. ciContains ''QUAL'' (title p) \<or> ciContains ''QUAL'' (shortDescription p) \<or>
                           (\<exists>tag \<in> set (tags p). ciContains ''QUAL'' tag))
                (concat (map (readablePrompts sampleEsmData) [codingCategory, brokenCategory, emptyCategory])))"
    by blast
  also have "\<dots> = Json [reviewPrompt]"
    unfolding ci lq
    by (simp add: readablePrompts_def sampleEsmData_def codingCategory_def brokenCategory_def
          emptyCategory_def refactorPrompt_def reviewPrompt_def toLowerCase_def toLowerChar_def)
  finally have r1: "fst (esm_search sampleEsmData (Some ''QUAL'')) = Json [reviewPrompt]" .
  from portal c d e have "fst (portal_search samplePortalData (Some ''FIVE slogans '')) =
        Json (map (toSearchResult (buildCategoriesMap ?pcats))
               (filter (\<lambda>p. sublist (trim (toLowerCase ''FIVE slogans '')) (toLowerCase (pp_title p)) \<or>
                             sublist (trim (toLowerCase ''FIVE slogans '')) (toLowerCase (pp_description p)) \<or>
                             sublist (trim (toLowerCase ''FIVE slogans '')) (toLowerCase (pp_prompt p)))
                  (jsonPrompts ?files)))"
    by blast
  also have "\<dots> = Json [toSearchResult [''marketing'' \<mapsto> ''Marketing''] slogansPortalPrompt]"
    unfolding lq includes_str_sublist [symmetric]
    by (simp add: jsonPrompts_def endsWith_def buildCategoriesMap_def slogansPortalPrompt_def
          toLowerCase_def toLowerChar_def)
  finally have r2: "fst (portal_search samplePortalData (Some ''FIVE slogans '')) =
     Json [toSearchResult [''marketing'' \<mapsto> ''Marketing''] slogansPortalPrompt]" .
  from a b c e r1 r2 show ?thesis by blast
qed

text \<open>
  The portal server finds a prompt for a query that occurs in the body of the prompt
  alone, not in its title nor in its description.
\<close>

theorem portal_search_matches_body_only:
  "fst (portal_search samplePortalData (Some ''five slogans'')) =
     Json [\<lparr> sr_id = ''slogan'', sr_categoryId = ''marketing'',
              sr_categoryName = Named ''Marketing'', sr_title = ''Alpha slogan'',
              sr_description = ''Short slogans'' \<rparr>] \<and>
   \<not> ciContains ''five slogans'' ''Alpha slogan'' \<and>
   \<not> ciContains ''five slogans'' ''Short slogans''"
  unfolding ciContains_def includes_str_sublist [symmetric]
  by (simp add: portal_search_def samplePortalData_def trim_def isWhiteSpace_def
        toLowerCase_def toLowerChar_def endsWith_def buildCategoriesMap_def portal_matches_def
        toSearchResult_def lookupCategoryName_def getMember_def slogansPortalPrompt_def)

text \<open>
  C5. The claim is that a query of two characters or more, typed in a category view,
  takes the view back to the home view before the search is made. The handler and the
  effect both test for more than two characters: with such a query the view becomes the
  home view and the search for it is the request made from there, the active category
  kept as it was. A query of at most two characters leaves the category view in place.
\<close>

theorem long_query_in_category_goes_home:
  "(view s = CategoryView \<and> 2 < length val \<longrightarrow>
      handleSearchChange val s =
        s\<lparr>searchQuery := val, view := Home, loadingPrompts := True,
          pending := pending s @ [SearchPrompts val]\<rparr>) \<and>
   (view s = CategoryView \<and> length val \<le> 2 \<longrightarrow>
      view (handleSearchChange val s) = CategoryView \<and>
      (\<forall>q. SearchPrompts q \<in> set (pending (handleSearchChange val s)) \<longrightarrow>
           SearchPrompts q \<in> set (pending s)))"
  by (auto simp: handleSearchChange_def rerender_def promptsEffect_def)

theorem long_query_in_category_goes_home_witness:
  "view (handleCategoryClick ''coding'' initialState) = CategoryView \<and> 2 < length ''cod'' \<and>
   view (handleSearchChange ''cod'' (handleCategoryClick ''coding'' initialState)) = Home \<and>
   pending (handleSearchChange ''cod'' (handleCategoryClick ''coding'' initialState)) =
     [GetCategories, GetPromptsByCategoryId ''coding'', SearchPrompts ''cod''] \<and>
   length ''co'' \<le> 2 \<and>
   view (handleSearchChange ''co'' (handleCategoryClick ''coding'' initialState)) = CategoryView"
proof -
  let ?s = "handleCategoryClick ''coding'' initialState"
  have a: "view ?s = CategoryView" "pending ?s = [GetCategories, GetPromptsByCategoryId ''coding'']"
    by (simp_all add: react_defs)
  have b: "2 < length ''cod''" "length ''co'' \<le> 2" by simp_all
  from long_query_in_category_goes_home [of ?s "''cod''"] a b
  have "handleSearchChange ''cod'' ?s =
        ?s\<lparr>searchQuery := ''cod'', view := Home, loadingPrompts := True,
          pending := pending ?s @ [SearchPrompts ''cod'']\<rparr>" by blast
  then have c: "view (handleSearchChange ''cod'' ?s) = Home"
    "pending (handleSearchChange ''cod'' ?s) =
       [GetCategories, GetPromptsByCategoryId ''coding'', SearchPrompts ''cod'']"
    using a by simp_all
  from long_query_in_category_goes_home [of ?s "''co''"] a b
  have "view (handleSearchChange ''co'' ?s) = CategoryView" by blast
  with a b c show ?thesis by blast
qed

text \<open>
  In the view of the category \<open>coding\<close> the query \<open>co\<close>, of two characters, leaves the
  view where it is; the request made is for the prompts of the category once more.
\<close>

theorem two_character_query_stays_in_category:
  "view (handleCategoryClick ''coding'' initialState) = CategoryView \<and>
   ''co'' \<noteq> [] \<and> 2 \<le> length ''co'' \<and>
   view (handleSearchChange ''co'' (handleCategoryClick ''coding'' initialState)) = CategoryView \<and>
   pending (handleSearchChange ''co'' (handleCategoryClick ''coding'' initialState)) =
     [GetCategories, GetPromptsByCategoryId ''coding'', GetPromptsByCategoryId ''coding'']"
  by (simp add: react_defs)

text \<open>
  C6. The claim is that when the request for the detail of a prompt fails, the overlay
  closes and does not stay in a loading state. In the React application a rejected
  promise and an answer without a prompt both set \<open>isModalOpen\<close> to false, whatever the
  state. The portal's script shows its overlay only after the prompt has been loaded:
  when the load fails (the prompt is not in the cache and the request is rejected or not
  \<open>ok\<close>) it raises an alert and leaves the overlay and its texts as they were, closed
  when it was closed and open on the earlier prompt when another selection had opened
  it; it has no loading state.
\<close>

theorem failed_hydration_closes_overlay:
  "(i < length (pending s) \<and> pending s ! i = GetPromptById p \<and>
    (getPromptById ds p = Rejected \<or> getPromptById ds p = Resolved None) \<longrightarrow>
      isModalOpen (resolve ds i s) = False \<and>
      resolve ds i s = s\<lparr>pending := removeAt i (pending s), isModalOpen := False\<rparr>) \<and>
   (getMember (cache_prompts ps) promptId = Undefined \<and>
    (response = FetchRejected \<or> response = NotOk) \<longrightarrow>
      openPromptModal response promptId ps =
        ps\<lparr>fetches := fetches ps @ [ApiPrompt promptId], alerts := alerts ps + 1\<rparr> \<and>
      modalVisible (openPromptModal response promptId ps) = modalVisible ps \<and>
      modalTitle (openPromptModal response promptId ps) = modalTitle ps \<and>
      modalDescription (openPromptModal response promptId ps) = modalDescription ps \<and>
      modalPromptContent (openPromptModal response promptId ps) = modalPromptContent ps)"
  by (auto simp: resolve_def Let_def openPromptModal_def loadPrompt_def)

theorem failed_hydration_closes_overlay_witness:
  "isModalOpen (run sampleService [PromptClick reviewPrompt] initialState) \<and>
   pending (run sampleService [PromptClick reviewPrompt] initialState) ! 1 = GetPromptById ''p2'' \<and>
   getPromptById sampleService ''p2'' = Resolved None \<and>
   \<not> isModalOpen (resolve sampleService 1 (run sampleService [PromptClick reviewPrompt] initialState)) \<and>
   getMember (cache_prompts samplePortalState) ''slogan'' = Undefined \<and>
   \<not> modalVisible samplePortalState \<and>
   \<not> modalVisible (openPromptModal NotOk ''slogan'' samplePortalState) \<and>
   alerts (openPromptModal NotOk ''slogan'' samplePortalState) = 1"
proof -
  let ?s = "run sampleService [PromptClick reviewPrompt] initialState"
  have a: "isModalOpen ?s" "1 < length (pending ?s)" "pending ?s ! 1 = GetPromptById ''p2''"
    "getPromptById sampleService ''p2'' = Resolved None"
    by (simp_all add: react_defs reviewPrompt_def)
  have b: "getMember (cache_prompts samplePortalState) ''slogan'' = Undefined"
    "\<not> modalVisible samplePortalState" "alerts samplePortalState = 0"
    by (simp_all add: samplePortalState_def getMember_def objectPrototypeKeys_def)
  from failed_hydration_closes_overlay
         [where i = 1 and s = ?s and p = "''p2''" and ds = sampleService] a
  have c: "isModalOpen (resolve sampleService 1 ?s) = False" by blast
  from failed_hydration_closes_overlay
         [where ps = samplePortalState and promptId = "''slogan''" and response = NotOk] b(1)
  have d: "openPromptModal NotOk ''slogan'' samplePortalState =
        samplePortalState\<lparr>fetches := fetches samplePortalState @ [ApiPrompt ''slogan''],
          alerts := alerts samplePortalState + 1\<rparr>" by blast
  have "\<not> modalVisible (openPromptModal NotOk ''slogan'' samplePortalState)"
    "alerts (openPromptModal NotOk ''slogan'' samplePortalState) = 1"
    unfolding d using b by simp_all
  with a b c show ?thesis by simp
qed

text \<open>
  In the portal the prompt \<open>slogan\<close> is open in the overlay when the load of another
  prompt fails: an alert is raised, and the overlay stays open on \<open>slogan\<close>.
\<close>

theorem portal_failed_load_leaves_overlay_open:
  "modalVisible (openPromptModal (OkBody slogansPortalPrompt) ''slogan'' samplePortalState) \<and>
   getMember
     (cache_prompts (openPromptModal (OkBody slogansPortalPrompt) ''slogan'' samplePortalState))
     ''missing'' = Undefined \<and>
   modalVisible (openPromptModal NotOk ''missing''
     (openPromptModal (OkBody slogansPortalPrompt) ''slogan'' samplePortalState)) \<and>
   modalTitle (openPromptModal NotOk ''missing''
     (openPromptModal (OkBody slogansPortalPrompt) ''slogan'' samplePortalState)) = ''Alpha slogan'' \<and>
   alerts (openPromptModal NotOk ''missing''
     (openPromptModal (OkBody slogansPortalPrompt) ''slogan'' samplePortalState)) = 1"
  by (simp add: openPromptModal_def loadPrompt_def getMember_def objectPrototypeKeys_def
        samplePortalState_def slogansPortalPrompt_def)

text \<open>
  An identifier that names a member of \<open>Object.prototype\<close> and is not in the cache is
  found in the cache all the same: the overlay opens with empty texts, with no request
  and no alert, whatever the server would answer.
\<close>

lemma inherited_key_opens_overlay:
  assumes "getMember (cache_prompts ps) promptId = Inherited"
  shows "openPromptModal response promptId ps =
           ps\<lparr>modalTitle := [], modalDescription := [], modalPromptContent := [],
              copyButtonPromptId := Some promptId, modalVisible := True\<rparr>"
  using assms by (simp add: openPromptModal_def loadPrompt_def)

lemma constructor_is_inherited:
  "getMember (cache_prompts samplePortalState) ''constructor'' = Inherited"
  by (simp add: getMember_def objectPrototypeKeys_def samplePortalState_def)

text \<open>
  In the search of the portal server a prompt whose category identifier names such a
  member, and is the identifier of no category, gets the member for the name of its
  category, not the placeholder.
\<close>

lemma inherited_key_category_name:
  "lookupCategoryName (buildCategoriesMap []) ''constructor'' = InheritedMember"
  "lookupCategoryName (buildCategoriesMap []) ''nowhere'' = UnknownCategory"
  by (simp_all add: lookupCategoryName_def buildCategoriesMap_def getMember_def
        objectPrototypeKeys_def)

text \<open>
  C7. Asked for the prompts of a category whose file is there and well formed, both
  servers answer with the content of the file, the empty list when the category has no
  prompt; asked for a category whose file does not exist, both answer 404; an empty
  list is not a 404.
\<close>

theorem category_known_or_not_found:
  "(categoryJson d c = Content ps \<longrightarrow> fst (esm_getCategory d c) = Json ps) \<and>
   (categoryJson d c = Missing \<longrightarrow> fst (esm_getCategory d c) = Failed 404) \<and>
   (p_categoryJson pd c = Content pps \<longrightarrow> fst (portal_getCategory pd c) = Json pps) \<and>
   (p_categoryJson pd c = Missing \<longrightarrow> fst (portal_getCategory pd c) = Failed 404) \<and>
   (categoryJson d c = Content [] \<longrightarrow> fst (esm_getCategory d c) \<noteq> Failed 404) \<and>
   (p_categoryJson pd c = Content [] \<longrightarrow> fst (portal_getCategory pd c) \<noteq> Failed 404)"
  by (simp add: esm_getCategory_def portal_getCategory_def)

theorem category_known_or_not_found_witness:
  "categoryJson sampleEsmData ''a'' = Content [] \<and>
   fst (esm_getCategory sampleEsmData ''a'') = Json [] \<and>
   categoryJson sampleEsmData ''zzz'' = Missing \<and>
   fst (esm_getCategory sampleEsmData ''zzz'') = Failed 404 \<and>
   p_categoryJson samplePortalData ''a'' = Content [] \<and>
   fst (portal_getCategory samplePortalData ''a'') = Json [] \<and>
   p_categoryJson samplePortalData ''zzz'' = Missing \<and>
   fst (portal_getCategory samplePortalData ''zzz'') = Failed 404"
proof -
  have a: "categoryJson sampleEsmData ''a'' = Content []"
    "categoryJson sampleEsmData ''zzz'' = Missing"
    "p_categoryJson samplePortalData ''a'' = Content []"
    "p_categoryJson samplePortalData ''zzz'' = Missing"
    by (simp_all add: sampleEsmData_def samplePortalData_def)
  note known = category_known_or_not_found
    [where d = sampleEsmData and pd = samplePortalData and c = "''a''" and ps = "[]" and pps = "[]"]
  note unknown = category_known_or_not_found
    [where d = sampleEsmData and pd = samplePortalData and c = "''zzz''"]
  from known a have "fst (esm_getCategory sampleEsmData ''a'') = Json []"
    "fst (portal_getCategory samplePortalData ''a'') = Json []" by blast+
  moreover from unknown a have "fst (esm_getCategory sampleEsmData ''zzz'') = Failed 404"
    "fst (portal_getCategory samplePortalData ''zzz'') = Failed 404" by blast+
  ultimately show ?thesis using a by blast
qed

text \<open>
  A category file that is there but cannot be parsed is neither case: the ESM server
  answers 404 for it, the portal server 500.
\<close>

lemma malformed_category_file:
  "categoryJson d c = Malformed \<Longrightarrow> fst (esm_getCategory d c) = Failed 404"
  "p_categoryJson pd c = Malformed \<Longrightarrow> fst (portal_getCategory pd c) = Failed 500"
  by (simp_all add: esm_getCategory_def portal_getCategory_def)

text \<open>
  C8. In the portal's script, a call of \<open>loadCategories\<close> that finds the cache empty and
  whose request succeeds sends one request and stores the categories; every call after
  it, whatever the server would answer, sends no request and renders the stored
  categories. A call that finds the cache filled sends no request.
\<close>

theorem categories_fetched_once:
  assumes "cache_categories s = None"
  shows "fetches (loadCategories (OkBody (Some cats)) s) = fetches s @ [ApiCategories] \<and>
         cache_categories (loadCategories (OkBody (Some cats)) s) = Some cats \<and>
         fetches (loadCategoriesTimes rs (loadCategories (OkBody (Some cats)) s)) =
           fetches s @ [ApiCategories] \<and>
         cache_categories (loadCategoriesTimes rs (loadCategories (OkBody (Some cats)) s)) =
           Some cats \<and>
         contentContainer (loadCategoriesTimes rs (loadCategories (OkBody (Some cats)) s)) =
           CategoriesGrid cats \<and>
         (cache_categories t = Some cs \<longrightarrow>
            fetches (loadCategories r t) = fetches t \<and>
            cache_categories (loadCategories r t) = Some cs \<and>
            contentContainer (loadCategories r t) = CategoriesGrid cs)"
proof -
  let ?s1 = "loadCategories (OkBody (Some cats)) s"
  have first: "fetches ?s1 = fetches s @ [ApiCategories]" "cache_categories ?s1 = Some cats"
    "contentContainer ?s1 = CategoriesGrid cats"
    using assms by (simp_all add: loadCategories_def renderCategories_def)
  have hit: "fetches (loadCategories r' u) = fetches u \<and>
             cache_categories (loadCategories r' u) = Some cs' \<and>
             contentContainer (loadCategories r' u) = CategoriesGrid cs'"
    if "cache_categories u = Some cs'" for r' u cs'
    using that by (simp add: loadCategories_def renderCategories_def)
  have later: "fetches (loadCategoriesTimes rs u) = fetches u \<and>
               cache_categories (loadCategoriesTimes rs u) = Some cats \<and>
               contentContainer (loadCategoriesTimes rs u) = CategoriesGrid cats"
    if "cache_categories u = Some cats" "contentContainer u = CategoriesGrid cats" for u
    using that
  proof (induction rs arbitrary: u)
    case Nil
    then show ?case by simp
  next
    case (Cons r' rs)
    from hit [OF Cons.prems(1), of r'] Cons.IH [of "loadCategories r' u"]
    show ?case by simp
  qed
  from later [of ?s1] first hit [of t cs r] show ?thesis by simp
qed

theorem categories_fetched_once_witness:
  "cache_categories samplePortalState = None \<and>
   fetches (loadCategoriesTimes [NotOk, FetchRejected, OkBody (Some [])]
     (loadCategories (OkBody (Some [\<lparr> pc_id = ''marketing'', pc_name = ''Marketing'',
         pc_image = ''M'', pc_promptCount = 1 \<rparr>])) samplePortalState)) = [ApiCategories] \<and>
   cache_categories (samplePortalState\<lparr>cache_categories := Some []\<rparr>) = Some [] \<and>
   fetches (loadCategories NotOk (samplePortalState\<lparr>cache_categories := Some []\<rparr>)) = []"
proof -
  have a: "cache_categories samplePortalState = None"
    by (simp add: samplePortalState_def)
  have b: "fetches samplePortalState @ [ApiCategories] = [ApiCategories]"
    by (simp add: samplePortalState_def)
  have c: "cache_categories (samplePortalState\<lparr>cache_categories := Some []\<rparr>) = Some []"
    by simp
  have d: "fetches (samplePortalState\<lparr>cache_categories := Some []\<rparr>) = []"
    by (simp add: samplePortalState_def)
  note fact = categories_fetched_once
    [OF a, where t = "samplePortalState\<lparr>cache_categories := Some []\<rparr>" and cs = "[]"
       and r = NotOk]
  from fact have
    "fetches (loadCategoriesTimes [NotOk, FetchRejected, OkBody (Some [])]
       (loadCategories (OkBody (Some [\<lparr> pc_id = ''marketing'', pc_name = ''Marketing'',
         pc_image = ''M'', pc_promptCount = 1 \<rparr>])) samplePortalState)) =
     fetches samplePortalState @ [ApiCategories]"
    by blast
  moreover from fact c have
    "fetches (loadCategories NotOk (samplePortalState\<lparr>cache_categories := Some []\<rparr>)) =
     fetches (samplePortalState\<lparr>cache_categories := Some []\<rparr>)"
    by blast
  ultimately show ?thesis unfolding b d using a c by blast
qed

text \<open>
  C9. In the home view of the React application a query of one or two characters makes
  no request: the state is the one before with the new query, and what is rendered (the
  first load of the categories over) is the list of prompts under the heading of the
  search results, filled from the array of prompts as it was: its items, the empty
  state when it is empty, the skeleton while an earlier request is outstanding. With
  an empty query the same state renders the grid of categories.
\<close>

theorem short_query_shows_stale_prompts:
  "view s = Home \<and> (length val = 1 \<or> length val = 2) \<longrightarrow>
     handleSearchChange val s = s\<lparr>searchQuery := val\<rparr> \<and>
     pending (handleSearchChange val s) = pending s \<and>
     prompts (handleSearchChange val s) = prompts s \<and>
     render (handleSearchChange val s) =
       (if loading s then Spinner
        else PromptsList SearchResultsCrumb
               (if loadingPrompts s then Skeleton
                else if prompts s = [] then NotFound True
                else Items (prompts s))) \<and>
     render (s\<lparr>searchQuery := []\<rparr>) =
       (if loading s then Spinner else CategoryGrid (categories s))"
proof -
  have "val \<noteq> []" if "length val = 1 \<or> length val = 2"
    using that by auto
  then show ?thesis
    by (auto simp: handleSearchChange_def rerender_def promptsEffect_def render_def
          renderPromptsList_def filteredCategories_def)
qed

theorem short_query_shows_stale_prompts_witness:
  "view (run sampleService [Resolve 0, SearchChange ''cod'', Resolve 0, ClearSearch] initialState) = Home \<and>
   length ''re'' = 2 \<and>
   render (run sampleService [Resolve 0, SearchChange ''cod'', Resolve 0, ClearSearch] initialState)
     = CategoryGrid [codingCategory] \<and>
   pending (handleSearchChange ''re''
     (run sampleService [Resolve 0, SearchChange ''cod'', Resolve 0, ClearSearch] initialState)) = [] \<and>
   render (handleSearchChange ''re''
     (run sampleService [Resolve 0, SearchChange ''cod'', Resolve 0, ClearSearch] initialState))
     = PromptsList SearchResultsCrumb (Items [refactorPrompt, reviewPrompt])"
proof -
  define s where
    "s = run sampleService [Resolve 0, SearchChange ''cod'', Resolve 0, ClearSearch] initialState"
  have a: "view s = Home" "\<not> loading s" "\<not> loadingPrompts s"
    "prompts s = [refactorPrompt, reviewPrompt]" "pending s = []"
    unfolding s_def by (simp_all add: react_defs)
  have ne: "[refactorPrompt, reviewPrompt] \<noteq> []" by simp
  have l: "length ''re'' = 2" by simp
  have b: "render s = CategoryGrid [codingCategory]"
    unfolding s_def by (simp add: react_defs render_def filteredCategories_def)
  from short_query_shows_stale_prompts [of s "''re''"] a(1) l
  have c: "pending (handleSearchChange ''re'' s) = pending s"
    "render (handleSearchChange ''re'' s) =
       (if loading s then Spinner
        else PromptsList SearchResultsCrumb
               (if loadingPrompts s then Skeleton
                else if prompts s = [] then NotFound True
                else Items (prompts s)))"
    by blast+
  have "pending (handleSearchChange ''re'' s) = []"
    "render (handleSearchChange ''re'' s) =
       PromptsList SearchResultsCrumb (Items [refactorPrompt, reviewPrompt])"
    unfolding c using a ne by simp_all
  with a(1) l b show ?thesis unfolding s_def by blast
qed

text \<open>
  C10. In the search of the ESM server a category file that cannot be read or parsed
  does not fail the request: the answer is a success holding the matches among the
  prompts of the listed categories whose files can be read, the same answer as if the
  other categories were not listed.
\<close>

theorem unreadable_category_is_skipped:
  assumes "2 \<le> length (toLowerCase q)" and "categoriesJson d = Content cats"
  shows "fst (esm_search d (Some q)) =
           Json (filter (esm_matches (toLowerCase q))
                  (concat (map (readablePrompts d) (filter (isReadable d) cats)))) \<and>
         fst (esm_search d (Some q)) =
           fst (esm_search (d\<lparr>categoriesJson := Content (filter (isReadable d) cats)\<rparr>) (Some q))"
proof -
  let ?d = "d\<lparr>categoriesJson := Content (filter (isReadable d) cats)\<rparr>"
  have same: "readablePrompts ?d = readablePrompts d" "isReadable ?d = isReadable d"
    by (rule ext, simp add: readablePrompts_def isReadable_def)+
  have "fst (esm_search d (Some q)) =
          Json (filter (esm_matches (toLowerCase q)) (concat (map (readablePrompts d) cats)))"
    using esm_search_long [OF assms] by simp
  moreover have "fst (esm_search ?d (Some q)) =
          Json (filter (esm_matches (toLowerCase q))
                 (concat (map (readablePrompts d) (filter (isReadable d) cats))))"
    using esm_search_long [of q ?d "filter (isReadable d) cats"] assms(1) same by simp
  ultimately show ?thesis by (simp add: concat_readable_filter)
qed

theorem unreadable_category_is_skipped_witness:
  "2 \<le> length (toLowerCase ''Re'') \<and>
   categoryJson sampleEsmData (category_id brokenCategory) = Malformed \<and>
   filter (isReadable sampleEsmData) [codingCategory, brokenCategory, emptyCategory] =
     [codingCategory, emptyCategory] \<and>
   fst (esm_search sampleEsmData (Some ''Re'')) = Json [refactorPrompt, reviewPrompt]"
proof -
  have a: "2 \<le> length (toLowerCase ''Re'')" by (simp add: toLowerCase_def)
  have b: "categoriesJson sampleEsmData = Content [codingCategory, brokenCategory, emptyCategory]"
    by (simp add: sampleEsmData_def)
  have c: "categoryJson sampleEsmData (category_id brokenCategory) = Malformed"
    by (simp add: sampleEsmData_def brokenCategory_def)
  have f: "filter (isReadable sampleEsmData) [codingCategory, brokenCategory, emptyCategory] =
     [codingCategory, emptyCategory]"
    by (simp add: isReadable_def sampleEsmData_def codingCategory_def brokenCategory_def
          emptyCategory_def)
  have "fst (esm_search sampleEsmData (Some ''Re'')) =
          Json (filter (esm_matches (toLowerCase ''Re''))
                 (concat (map (readablePrompts sampleEsmData)
                    (filter (isReadable sampleEsmData) [codingCategory, brokenCategory, emptyCategory]))))"
    using unreadable_category_is_skipped [OF a b] by blast
  also have "\<dots> = Json [refactorPrompt, reviewPrompt]"
    unfolding f
    by (simp add: readablePrompts_def sampleEsmData_def codingCategory_def
          emptyCategory_def refactorPrompt_def reviewPrompt_def toLowerCase_def toLowerChar_def
          esm_matches_def)
  finally show ?thesis using a c f by blast
qed

end
